theory Spec2Isabelle
  imports Main "HOL-Library.Signed_Division"
begin

section \<open>The board codec of ShogiAreaController.tsx\<close>

subsection \<open>Values of the host language\<close>

text \<open>
  A cell has the declared type \<open>ShogiCell = ShogiColor | undefined\<close>; at run time the
  decoder stores strings in it. \<open>None\<close> is the value \<open>undefined\<close>, which is also what
  reading a hole of an array yields.
\<close>

type_synonym cell = "string option"
type_synonym board = "cell list list"

datatype error =
    NO_GAME_STARTABLE
  | NO_GAME_IN_PROGRESS_ERROR
  | PLAYER_NOT_IN_GAME_ERROR
  | TypeError
  | TransportError string

text \<open>
  \<open>parseInt(char, 10)\<close> on a string of one character: the value of the digit for
  \<open>'0'\<close> .. \<open>'9'\<close> and \<open>NaN\<close> (here \<open>None\<close>) for every other character.
\<close>

definition parseInt10 :: "char \<Rightarrow> nat option" where
  "parseInt10 ch =
     (let n = (of_char ch :: nat) in if 48 \<le> n \<and> n \<le> 57 then Some (n - 48) else None)"

text \<open>String concatenation with a value that may be \<open>undefined\<close>.\<close>

definition js_str :: "cell \<Rightarrow> string" where
  "js_str c = (case c of None \<Rightarrow> ''undefined'' | Some s \<Rightarrow> s)"

text \<open>\<open>rank[j]\<close>: the character at an index, \<open>undefined\<close> past the end.\<close>

definition char_at :: "string \<Rightarrow> nat \<Rightarrow> cell" where
  "char_at s j = (if j < length s then Some [s ! j] else None)"

text \<open>The decimal numeral that \<open>rank += empty\<close> appends for a number.\<close>

fun show_nat :: "nat \<Rightarrow> string" where
  "show_nat n =
     (if n < 10 then [char_of (48 + n)]
      else show_nat (n div 10) @ [char_of (48 + n mod 10)])"

declare show_nat.simps [simp del]

text \<open>
  \<open>s.split(sep)\<close> for a separator of one character: the fields between the
  separators, with one (possibly empty) field more than there are separators.
\<close>

fun split :: "char \<Rightarrow> string \<Rightarrow> string list" where
  "split sep [] = [[]]"
| "split sep (c # cs) =
     (if c = sep then [] # split sep cs
      else (case split sep cs of [] \<Rightarrow> [[c]] | w # ws \<Rightarrow> (c # w) # ws))"

text \<open>
  \<open>row[file] = v\<close> on an array: inside the array the element is replaced; past its end
  the array grows, and the indices skipped become holes.
\<close>

definition array_set :: "cell list \<Rightarrow> nat \<Rightarrow> cell \<Rightarrow> cell list" where
  "array_set row file v =
     (if file < length row then row[file := v]
      else row @ replicate (file - length row) None @ [v])"

text \<open>
  \<open>board[i][file] = v\<close>: when \<open>board[i]\<close> is \<open>undefined\<close> the assignment raises a
  TypeError.
\<close>

definition set_cell :: "board \<Rightarrow> nat \<Rightarrow> nat \<Rightarrow> cell \<Rightarrow> error + board" where
  "set_cell board i file v =
     (if i < length board then Inr (board[i := array_set (board ! i) file v])
      else Inl TypeError)"

subsection \<open>createBoardFromSfen\<close>

text \<open>
  The inner loop over the characters of rank \<open>i\<close>, from index \<open>j\<close> on; the argument
  is the rest of the rank from \<open>j\<close>. After a promotion marker the next character is
  consumed with it (\<open>j++\<close>); at the end of the rank \<open>rank[j + 1]\<close> is \<open>undefined\<close> and
  the cell becomes the string \<open>+undefined\<close>.
\<close>

fun rank_loop :: "nat \<Rightarrow> string \<Rightarrow> nat \<Rightarrow> board \<Rightarrow> error + board" where
  "rank_loop i [] file board = Inr board"
| "rank_loop i (ch # rest) file board =
     (case parseInt10 ch of
        None \<Rightarrow>
          (if ch = CHR ''+'' then
             (case set_cell board i file (Some (ch # js_str (char_at rest 0))) of
                Inl e \<Rightarrow> Inl e
              | Inr board' \<Rightarrow>
                  (case rest of
                     [] \<Rightarrow> Inr board'
                   | nxt # rest' \<Rightarrow> rank_loop i rest' (file + 1) board'))
           else
             (case set_cell board i file (Some [ch]) of
                Inl e \<Rightarrow> Inl e
              | Inr board' \<Rightarrow> rank_loop i rest (file + 1) board'))
      | Some n \<Rightarrow> rank_loop i rest (file + n) board)"

text \<open>The outer loop over the ranks, from index \<open>i\<close> on.\<close>

fun ranks_loop :: "nat \<Rightarrow> string list \<Rightarrow> board \<Rightarrow> error + board" where
  "ranks_loop i [] board = Inr board"
| "ranks_loop i (rank # ranks) board =
     (case rank_loop i rank 0 board of
        Inl e \<Rightarrow> Inl e
      | Inr board' \<Rightarrow> ranks_loop (i + 1) ranks board')"

definition createBoardFromSfen :: "string \<Rightarrow> error + board" where
  "createBoardFromSfen sfen =
     (let ranks = split (CHR ''/'') (hd (split (CHR '' '') sfen));
          board = replicate 9 (replicate 9 (Some '' ''))
      in ranks_loop 0 ranks board)"

subsection \<open>\_boardToSfen\<close>

text \<open>
  The inner loop over the cells of one row, with the accumulators \<open>rank\<close> and \<open>empty\<close>
  (here \<open>empties\<close>);
  the pending run of empty cells is flushed after the last cell.
\<close>

fun cells_loop :: "cell list \<Rightarrow> string \<Rightarrow> nat \<Rightarrow> string" where
  "cells_loop [] rank empties = (if empties > 0 then rank @ show_nat empties else rank)"
| "cells_loop (c # cs) rank empties =
     (if c = Some '' '' then cells_loop cs rank (empties + 1)
      else cells_loop cs
             ((if empties > 0 then rank @ show_nat empties else rank) @ js_str c) 0)"

text \<open>The outer loop over the rows, from index \<open>i\<close> on; \<open>n\<close> is \<open>board.length\<close>.\<close>

fun rows_loop :: "nat \<Rightarrow> nat \<Rightarrow> cell list list \<Rightarrow> string \<Rightarrow> string" where
  "rows_loop n i [] sfen = sfen"
| "rows_loop n i (row # rows) sfen =
     rows_loop n (i + 1) rows
       (let sfen' = sfen @ cells_loop row [] 0
        in if i < n - 1 then sfen' @ ''/'' else sfen')"

definition boardToSfen :: "board \<Rightarrow> string" where
  "boardToSfen board = rows_loop (length board) 0 board []"

section \<open>The controller\<close>

subsection \<open>The snapshot and the state of the controller\<close>

text \<open>
  The types of \<open>CoveyTownSocket\<close> as this file uses them. The fields of the game state
  that share a name with a getter of the controller carry the prefix \<open>s_\<close>; \<open>numMoves\<close>
  is an integer.
\<close>

datatype GameStatus = WAITING_FOR_PLAYERS | WAITING_TO_START | IN_PROGRESS | OVER

record ShogiGameState =
  sfen :: string
  numMoves :: int
  s_white :: "string option"
  s_black :: "string option"
  s_winner :: "string option"
  s_status :: GameStatus

record GameInstance =
  state :: ShogiGameState
  instance_id :: string
  players :: "string list"

record GameArea =
  game :: "GameInstance option"
  area_occupants :: "string list"

record PlayerController =
  player_id :: string
  userName :: string

text \<open>
  The fields that the controller inherits from \<open>GameAreaController\<close> (\<open>_model\<close>,
  \<open>occupants\<close>, \<open>_instanceID\<close>, \<open>id\<close>) are kept apart from the field \<open>_board\<close> that
  \<open>ShogiAreaController\<close> declares itself, and from \<open>_townController.ourPlayer\<close>.
\<close>

record base_state =
  the_model :: GameArea
  occupants :: "PlayerController list"
  the_instanceID :: "string option"
  interactable_id :: string

record controller =
  base :: base_state
  ourPlayer :: PlayerController
  the_board :: board

text \<open>\<open>this._model.game?.state\<close>.\<close>

definition game_state :: "controller \<Rightarrow> ShogiGameState option" where
  "game_state c = map_option state (game (the_model (base c)))"

definition initial_board :: "error + board" where
  "initial_board =
     createBoardFromSfen ''lnsgkgsnl/1r5b1/ppppppppp/9/9/9/PPPPPPPPP/1B5R1/LNSGKGSNL''"

subsection \<open>The getters\<close>

definition white :: "controller \<Rightarrow> PlayerController option" where
  "white c =
     (case Option.bind (game_state c) s_white of
        Some w \<Rightarrow>
          (if w \<noteq> [] then find (\<lambda>eachOccupant. player_id eachOccupant = w) (occupants (base c))
           else None)
      | None \<Rightarrow> None)"

definition black :: "controller \<Rightarrow> PlayerController option" where
  "black c =
     (case Option.bind (game_state c) s_black of
        Some b \<Rightarrow>
          (if b \<noteq> [] then find (\<lambda>eachOccupant. player_id eachOccupant = b) (occupants (base c))
           else None)
      | None \<Rightarrow> None)"

text \<open>\<open>numMoves || 0\<close>: a number that is falsy (zero, or absent) gives 0.\<close>

definition moveCount :: "controller \<Rightarrow> int" where
  "moveCount c =
     (case map_option numMoves (game_state c) of
        Some n \<Rightarrow> (if n \<noteq> 0 then n else 0)
      | None \<Rightarrow> 0)"

text \<open>
  A role-holder that is \<open>undefined\<close> or the empty string is falsy and resolves to
  nothing. The remainder \<open>%\<close> of the host language takes the sign of the dividend; on
  integers it is \<open>smod\<close>.
\<close>

definition whoseTurn :: "controller \<Rightarrow> PlayerController option" where
  "whoseTurn c =
     (if white c = None \<or> black c = None
         \<or> map_option s_status (game_state c) \<noteq> Some IN_PROGRESS
      then None
      else if moveCount c smod 2 = 0 then black c
      else white c)"

text \<open>\<open>this.whoseTurn?.id === this._townController.ourPlayer.id\<close>.\<close>

definition isOurTurn :: "controller \<Rightarrow> bool" where
  "isOurTurn c = (map_option player_id (whoseTurn c) = Some (player_id (ourPlayer c)))"

definition gamePiece :: "controller \<Rightarrow> error + string" where
  "gamePiece c =
     (if map_option player_id (white c) = Some (player_id (ourPlayer c)) then Inr ''white''
      else if map_option player_id (black c) = Some (player_id (ourPlayer c)) then Inr ''black''
      else Inl PLAYER_NOT_IN_GAME_ERROR)"

subsection \<open>\_updateFrom\<close>

text \<open>
  An emitted event is the name given to \<open>emit\<close> and the value sent with it.
\<close>

datatype payload = BoardPayload board | BoolPayload bool

type_synonym event = "string \<times> payload"

text \<open>
  What one call leaves behind: the exception that left it, if any, the controller
  afterwards, and the events emitted, in order.
\<close>

record update_result =
  thrown :: "error option"
  ctrl :: controller
  emitted :: "event list"

text \<open>
  \<open>super._updateFrom\<close> belongs to \<open>GameAreaController\<close>, which is not part of the sources
  at hand: it is the parameter \<open>super_updateFrom\<close>, a function on the inherited fields.
  \<open>_.isEqual\<close> on two arrays of arrays of strings is equality of the values. A TypeError
  raised by the decoder leaves \<open>_updateFrom\<close> after the inherited fields were refreshed
  and before anything is emitted.
\<close>

definition updateFrom ::
  "(GameArea \<Rightarrow> base_state \<Rightarrow> base_state) \<Rightarrow> GameArea \<Rightarrow> controller \<Rightarrow> update_result" where
  "updateFrom super_updateFrom newModel c =
     (let wasOurTurn = isOurTurn c;
          c1 = c\<lparr>base := super_updateFrom newModel (base c)\<rparr>;
          step3 =
            (case game newModel of
               Some newGame \<Rightarrow>
                 (case createBoardFromSfen (sfen (state newGame)) of
                    Inl e \<Rightarrow> Inl e
                  | Inr newBoard \<Rightarrow>
                      (if newBoard \<noteq> the_board c1
                       then Inr (c1\<lparr>the_board := newBoard\<rparr>,
                                 [(''boxardChanged'', BoardPayload newBoard)])
                       else Inr (c1, [])))
             | None \<Rightarrow> Inr (c1, []))
      in case step3 of
           Inl e \<Rightarrow> \<lparr>thrown = Some e, ctrl = c1, emitted = []\<rparr>
         | Inr (c2, events) \<Rightarrow>
             (let isOurTurn' = isOurTurn c2
              in \<lparr>thrown = None, ctrl = c2,
                  emitted = events @
                    (if wasOurTurn \<noteq> isOurTurn'
                     then [(''turnChanged'', BoolPayload isOurTurn')] else [])\<rparr>))"

text \<open>
  Modelled from the spec: \<open>super._updateFrom\<close> of \<open>GameAreaController\<close>, which is not in
  the sources: it "refreshes generic fields (occupants, identity, instance id)" and, by
  the comment at \<open>_updateFrom\<close>, \<open>this._model\<close>. The occupants are resolved among the
  players that the town knows. It is used to run \<open>updateFrom\<close> on concrete snapshots.
\<close>

definition base_updateFrom ::
  "PlayerController list \<Rightarrow> GameArea \<Rightarrow> base_state \<Rightarrow> base_state" where
  "base_updateFrom town newModel b =
     b\<lparr>the_model := newModel,
       occupants := filter (\<lambda>p. player_id p \<in> set (area_occupants newModel)) town,
       the_instanceID :=
         (case game newModel of Some g \<Rightarrow> Some (instance_id g) | None \<Rightarrow> the_instanceID b)\<rparr>"

subsection \<open>startGame and makeMove\<close>

record ShogiPosition =
  row :: nat
  col :: nat

record ShogiMove =
  move_from :: ShogiPosition
  move_to :: ShogiPosition

datatype command = StartGame string | GameMove string ShogiMove

text \<open>
  \<open>sendInteractableCommand\<close> belongs to the transport: \<open>respond\<close> is what it reports for
  a command (\<open>None\<close> when it resolves). A call returns its outcome and the list of the
  invocations of the transport that it made.
\<close>

text \<open>
  An instance identifier that is \<open>undefined\<close> or the empty string is falsy
  (\<open>!instanceID\<close>).
\<close>

definition startGame ::
  "(string \<Rightarrow> command \<Rightarrow> error option) \<Rightarrow> controller
     \<Rightarrow> (error + unit) \<times> (string \<times> command) list" where
  "startGame respond c =
     (case the_instanceID (base c) of
        Some instanceID \<Rightarrow>
          (if instanceID = [] \<or> map_option s_status (game_state c) \<noteq> Some WAITING_TO_START
           then (Inl NO_GAME_STARTABLE, [])
           else
             (let call = (interactable_id (base c), StartGame instanceID)
              in (case respond (fst call) (snd call) of
                    Some e \<Rightarrow> Inl e | None \<Rightarrow> Inr (), [call])))
      | None \<Rightarrow> (Inl NO_GAME_STARTABLE, []))"

definition makeMove ::
  "(string \<Rightarrow> command \<Rightarrow> error option) \<Rightarrow> controller
     \<Rightarrow> nat \<Rightarrow> nat \<Rightarrow> nat \<Rightarrow> nat \<Rightarrow> (error + unit) \<times> (string \<times> command) list" where
  "makeMove respond c fRow fCol tRow tCol =
     (case the_instanceID (base c) of
        Some instanceID \<Rightarrow>
          (if instanceID = [] \<or> map_option s_status (game_state c) \<noteq> Some IN_PROGRESS
           then (Inl NO_GAME_IN_PROGRESS_ERROR, [])
           else
             (let move = \<lparr>move_from = \<lparr>row = fRow, col = fCol\<rparr>,
                          move_to = \<lparr>row = tRow, col = tCol\<rparr>\<rparr>;
                  call = (interactable_id (base c), GameMove instanceID move)
              in (case respond (fst call) (snd call) of
                    Some e \<Rightarrow> Inl e | None \<Rightarrow> Inr (), [call])))
      | None \<Rightarrow> (Inl NO_GAME_IN_PROGRESS_ERROR, []))"

section \<open>The codec as the specification words it\<close>

text \<open>
  The decoder as a scanner with one character of lookahead, producing an empty run, a
  base token or a promoted token, and a grid builder that lays the tokens out from left
  to right. A base symbol is a character that is neither a decimal digit nor the
  promotion marker, the rank delimiter or the space (which is the empty cell).
\<close>

datatype token = EmptyRun nat | BaseToken char | PromotedToken char

definition digit_value :: "char \<Rightarrow> nat option" where
  "digit_value ch = map_of (zip ''0123456789'' [0 ..< 10]) ch"

definition base_symbol :: "char \<Rightarrow> bool" where
  "base_symbol ch = (ch \<notin> set ''0123456789+/ '')"

fun scan :: "string \<Rightarrow> token list option" where
  "scan [] = Some []"
| "scan (ch # rest) =
     (case digit_value ch of
        Some n \<Rightarrow> map_option (Cons (EmptyRun n)) (scan rest)
      | None \<Rightarrow>
          (if ch = CHR ''+'' then
             (case rest of
                [] \<Rightarrow> None
              | nxt # rest' \<Rightarrow>
                  (if base_symbol nxt then map_option (Cons (PromotedToken nxt)) (scan rest')
                   else None))
           else map_option (Cons (BaseToken ch)) (scan rest)))"

fun cells_of :: "token \<Rightarrow> cell list" where
  "cells_of (EmptyRun n) = replicate n (Some '' '')"
| "cells_of (BaseToken ch) = [Some [ch]]"
| "cells_of (PromotedToken ch) = [Some [CHR ''+'', ch]]"

definition decode_rank :: "string \<Rightarrow> cell list option" where
  "decode_rank r = map_option (\<lambda>ts. concat (map cells_of ts)) (scan r)"

text \<open>All the results of a list, when none is missing.\<close>

fun sequence :: "'a option list \<Rightarrow> 'a list option" where
  "sequence [] = Some []"
| "sequence (x # xs) =
     (case x of None \<Rightarrow> None | Some y \<Rightarrow> map_option (Cons y) (sequence xs))"

text \<open>The first space-delimited field, and the ranks in it.\<close>

definition first_field :: "string \<Rightarrow> string" where
  "first_field s = takeWhile (\<lambda>ch. ch \<noteq> CHR '' '') s"

definition decode :: "string \<Rightarrow> board option" where
  "decode s = sequence (map decode_rank (split (CHR ''/'') (first_field s)))"

text \<open>
  A serialized string is well-formed when every rank scans and the grid has exactly nine
  rows of exactly nine cells.
\<close>

definition well_formed_sfen :: "string \<Rightarrow> bool" where
  "well_formed_sfen s =
     (case decode s of
        None \<Rightarrow> False
      | Some b \<Rightarrow> length b = 9 \<and> list_all (\<lambda>cells. length cells = 9) b)"

text \<open>
  A cell of a well-formed board: the empty cell \<open>' '\<close>, a base symbol, or the promotion
  marker and a base symbol.
\<close>

definition piece_token :: "string \<Rightarrow> bool" where
  "piece_token s =
     (case s of
        [ch] \<Rightarrow> base_symbol ch
      | [m, ch] \<Rightarrow> m = CHR ''+'' \<and> base_symbol ch
      | _ \<Rightarrow> False)"

definition well_formed_cell :: "cell \<Rightarrow> bool" where
  "well_formed_cell c =
     (case c of None \<Rightarrow> False | Some s \<Rightarrow> s = '' '' \<or> piece_token s)"

definition well_formed_board :: "board \<Rightarrow> bool" where
  "well_formed_board b =
     (length b = 9 \<and> list_all (\<lambda>cells. length cells = 9 \<and> list_all well_formed_cell cells) b)"

text \<open>
  What the claims about the exposed board ask of a cell: the string \<open>' '\<close>, a string of
  one character, or \<open>'+'\<close> and one character.
\<close>

definition cell_shape :: "cell \<Rightarrow> bool" where
  "cell_shape c =
     (case c of
        None \<Rightarrow> False
      | Some s \<Rightarrow> length s = 1 \<or> (length s = 2 \<and> hd s = CHR ''+''))"

definition board_shape :: "board \<Rightarrow> bool" where
  "board_shape b = list_all (list_all cell_shape) b"

text \<open>The ranks of an encoded board, joined with the rank delimiter.\<close>

fun join_ranks :: "string list \<Rightarrow> string" where
  "join_ranks [] = []"
| "join_ranks [r] = r"
| "join_ranks (r # r' # rs) = r @ ''/'' @ join_ranks (r' # rs)"

text \<open>
  A rank fits the board when every piece token in it is written to one of the nine
  columns, and every promotion marker is followed by a character of the same rank; a board
  string fits when every rank of its first field does. \<open>rows_inv\<close> is what then holds of
  the grid throughout the decoding.
\<close>

fun rank_fits :: "string \<Rightarrow> nat \<Rightarrow> bool" where
  "rank_fits [] f = True"
| "rank_fits (ch # rest) f =
     (case digit_value ch of
        Some n \<Rightarrow> rank_fits rest (f + n)
      | None \<Rightarrow>
          f < 9 \<and>
          (if ch = CHR ''+'' then
             (case rest of [] \<Rightarrow> False | nxt # rest' \<Rightarrow> rank_fits rest' (f + 1))
           else rank_fits rest (f + 1)))"

definition sfen_fits :: "string \<Rightarrow> bool" where
  "sfen_fits s = list_all (\<lambda>r. rank_fits r 0) (split (CHR ''/'') (first_field s))"

definition rows_inv :: "board \<Rightarrow> bool" where
  "rows_inv b = (\<forall>cells \<in> set b. length cells = 9 \<and> list_all cell_shape cells)"

section \<open>Concrete states and snapshots\<close>

definition alice :: PlayerController where
  "alice = \<lparr>player_id = ''alice'', userName = ''Alice''\<rparr>"

definition bob :: PlayerController where
  "bob = \<lparr>player_id = ''bob'', userName = ''Bob''\<rparr>"

definition opening_sfen :: string where
  "opening_sfen = ''lnsgkgsnl/1r5b1/ppppppppp/9/9/9/PPPPPPPPP/1B5R1/LNSGKGSNL''"

definition opening_board :: board where
  "opening_board =
     [map (\<lambda>ch. Some [ch]) ''lnsgkgsnl'',
      map (\<lambda>ch. Some [ch]) '' r     b '',
      map (\<lambda>ch. Some [ch]) ''ppppppppp'',
      replicate 9 (Some '' ''),
      replicate 9 (Some '' ''),
      replicate 9 (Some '' ''),
      map (\<lambda>ch. Some [ch]) ''PPPPPPPPP'',
      map (\<lambda>ch. Some [ch]) '' B     R '',
      map (\<lambda>ch. Some [ch]) ''LNSGKGSNL'']"

text \<open>
  A snapshot with a game between alice (white) and bob (black), and the controller of
  bob's client holding that snapshot and the opening board.
\<close>

definition snapshot :: "string \<Rightarrow> int \<Rightarrow> GameStatus \<Rightarrow> GameArea" where
  "snapshot s n st =
     \<lparr>game = Some \<lparr>state = \<lparr>sfen = s, numMoves = n, s_white = Some ''alice'',
                              s_black = Some ''bob'', s_winner = None, s_status = st\<rparr>,
                    instance_id = ''game-1'', players = [''alice'', ''bob'']\<rparr>,
      area_occupants = [''alice'', ''bob'']\<rparr>"

definition no_game :: GameArea where
  "no_game = \<lparr>game = None, area_occupants = [''alice'', ''bob'']\<rparr>"

definition controller_of :: "GameArea \<Rightarrow> controller" where
  "controller_of m =
     \<lparr>base = \<lparr>the_model = m, occupants = [alice, bob],
              the_instanceID = map_option instance_id (game m),
              interactable_id = ''shogi-area''\<rparr>,
      ourPlayer = bob,
      the_board = opening_board\<rparr>"

text \<open>A snapshot in which bob holds both roles, and two board strings.\<close>

definition solo_game :: GameArea where
  "solo_game =
     \<lparr>game = Some \<lparr>state = \<lparr>sfen = opening_sfen, numMoves = 0, s_white = Some ''bob'',
                              s_black = Some ''bob'', s_winner = None,
                              s_status = WAITING_TO_START\<rparr>,
                    instance_id = ''game-1'', players = [''bob'']\<rparr>,
      area_occupants = [''alice'', ''bob'']\<rparr>"

definition empty_sfen :: string where
  "empty_sfen = ''9/9/9/9/9/9/9/9/9''"

definition overlong_sfen :: string where
  "overlong_sfen = ''9/9/9/9/9/9/9/9/9/p''"

text \<open>
  A position with a promoted pawn, as a board string with its trailing fields and as a
  grid; and a board string whose last rank runs past the ninth column and ends in a
  promotion marker.
\<close>

definition promoted_sfen :: string where
  "promoted_sfen = ''lnsgkgsnl/1r5b1/pppp+Ppppp/9/9/9/PPPP1PPPP/1B5R1/LNSGKGSNL b - 1''"

definition promoted_board :: board where
  "promoted_board =
     [map (\<lambda>ch. Some [ch]) ''lnsgkgsnl'',
      map (\<lambda>ch. Some [ch]) '' r     b '',
      map (\<lambda>ch. Some [ch]) ''pppp'' @ [Some ''+P''] @ map (\<lambda>ch. Some [ch]) ''pppp'',
      replicate 9 (Some '' ''),
      replicate 9 (Some '' ''),
      replicate 9 (Some '' ''),
      map (\<lambda>ch. Some [ch]) ''PPPP PPPP'',
      map (\<lambda>ch. Some [ch]) '' B     R '',
      map (\<lambda>ch. Some [ch]) ''LNSGKGSNL'']"

definition ragged_sfen :: string where
  "ragged_sfen = ''9/9/9/9/9/9/9/9/99+''"

section \<open>The decoder\<close>

subsection \<open>The decoder raises only past the ninth rank\<close>

lemma rank_loop_total:
  "i < length b \<Longrightarrow> \<exists>b'. rank_loop i r f b = Inr b' \<and> length b' = length b"
proof (induction i r f b rule: rank_loop.induct)
  case (1 i f board)
  then show ?case by simp
next
  case (2 i ch rest f board)
  show ?case
  proof (cases "parseInt10 ch")
    case (Some n)
    with 2 show ?thesis by simp
  next
    case None
    show ?thesis
    proof (cases "ch = CHR ''+''")
      case True
      let ?b = "board[i := array_set (board ! i) f (Some (ch # js_str (char_at rest 0)))]"
      have sc: "set_cell board i f (Some (ch # js_str (char_at rest 0))) = Inr ?b"
        using "2.prems" by (simp add: set_cell_def)
      show ?thesis
      proof (cases rest)
        case Nil
        with None True sc "2.prems" show ?thesis by simp
      next
        case (Cons nxt rest')
        from "2.IH"(1) [OF None True sc Cons] "2.prems"
        show ?thesis using None True sc Cons by simp
      qed
    next
      case False
      let ?b = "board[i := array_set (board ! i) f (Some [ch])]"
      have sc: "set_cell board i f (Some [ch]) = Inr ?b"
        using "2.prems" by (simp add: set_cell_def)
      from "2.IH"(2) [OF None False sc] "2.prems"
      show ?thesis using None False sc by simp
    qed
  qed
qed

lemma ranks_loop_total:
  "i + length rs \<le> length b \<Longrightarrow> \<exists>b'. ranks_loop i rs b = Inr b' \<and> length b' = length b"
proof (induction rs arbitrary: i b)
  case Nil
  then show ?case by simp
next
  case (Cons r rs)
  then have "i < length b" by simp
  from rank_loop_total [OF this, of r 0] obtain b' where
    b': "rank_loop i r 0 b = Inr b'" "length b' = length b" by blast
  from Cons.IH [of "i + 1" b'] Cons.prems b' show ?case by simp
qed

lemma split_not_Nil: "split sep s \<noteq> []"
  by (induction s) (auto split: list.splits)

lemma hd_split: "hd (split sep s) = takeWhile (\<lambda>ch. ch \<noteq> sep) s"
  using split_not_Nil [of sep] by (induction s) (auto split: list.splits)

lemma createBoardFromSfen_ranks:
  "createBoardFromSfen s =
     ranks_loop 0 (split (CHR ''/'') (first_field s)) (replicate 9 (replicate 9 (Some '' '')))"
  by (simp add: createBoardFromSfen_def first_field_def hd_split)

lemma createBoardFromSfen_first_field:
  "createBoardFromSfen (first_field s) = createBoardFromSfen s"
  by (simp add: createBoardFromSfen_ranks) (simp add: first_field_def takeWhile_idem)

lemma createBoardFromSfen_total:
  assumes "length (split (CHR ''/'') (first_field s)) \<le> 9"
  shows "\<exists>b. createBoardFromSfen s = Inr b"
  using ranks_loop_total [of 0 "split (CHR ''/'') (first_field s)" "replicate 9 (replicate 9 (Some '' ''))"] assms
  by (auto simp add: createBoardFromSfen_ranks)

subsection \<open>The decoder against the scanner\<close>

lemma upt10: "[0 ..< 10] = [0,1,2,3,4,5,6,7,8,9::nat]" by code_simp

lemma parseInt10_digit_value: "parseInt10 ch = digit_value ch"
proof -
  have *: "\<And>d. (ch = d) = (of_char ch = (of_char d :: nat))" by simp
  define n where "n = (of_char ch :: nat)"
  show ?thesis unfolding parseInt10_def digit_value_def upt10 Let_def
    apply (simp add: * del: of_char_eq_iff)
    apply (fold n_def)
    apply arith
    done
qed

lemma array_set_at_end:
  "array_set (pre @ x # post) (length pre) v = pre @ v # post"
  by (simp add: array_set_def)

lemma set_cell_in_row:
  assumes "i < length b" "b ! i = pre @ x # post"
  shows "set_cell b i (length pre) v = Inr (b[i := pre @ v # post])"
  using assms by (simp add: set_cell_def array_set_at_end)

lemma rank_loop_scan:
  assumes "scan r = Some ts" "i < length b" "b ! i = pre @ replicate k (Some '' '')"
    and "length (concat (map cells_of ts)) \<le> k"
  shows "rank_loop i r (length pre) b =
           Inr (b[i := pre @ concat (map cells_of ts)
                    @ replicate (k - length (concat (map cells_of ts))) (Some '' '')])"
  using assms
proof (induction r arbitrary: ts b pre k rule: scan.induct)
  case 1
  then have "b[i := pre @ replicate k (Some '' '')] = b"
    by (metis list_update_id)
  with 1 show ?case by simp
next
  case (2 ch rest)
  show ?case
  proof (cases "digit_value ch")
    case (Some n)
    with "2.prems"(1) obtain ts' where ts': "scan rest = Some ts'" "ts = EmptyRun n # ts'"
      by auto
    from "2.prems"(4) ts' have nk: "n \<le> k" by simp
    then have row: "b ! i = (pre @ replicate n (Some '' '')) @ replicate (k - n) (Some '' '')"
      using "2.prems"(3) by (simp add: replicate_add [symmetric])
    have len: "length (concat (map cells_of ts')) \<le> k - n"
      using "2.prems"(4) ts' by simp
    from "2.IH"(3) [OF Some ts'(1) "2.prems"(2) row len]
    show ?thesis using Some ts' by (simp add: parseInt10_digit_value)
  next
    case None
    show ?thesis
    proof (cases "ch = CHR ''+''")
      case True
      with None "2.prems"(1) obtain nxt rest' ts' where
        r: "rest = nxt # rest'" "base_symbol nxt" "scan rest' = Some ts'"
           "ts = PromotedToken nxt # ts'"
        by (auto split: list.splits if_splits)
      from "2.prems"(4) r obtain k' where k: "k = Suc k'" by (cases k) auto
      let ?v = "Some [CHR ''+'', nxt]"
      let ?b = "b[i := pre @ ?v # replicate k' (Some '' '')]"
      have sc: "set_cell b i (length pre) ?v = Inr ?b"
        using "2.prems"(2,3) k by (intro set_cell_in_row) simp_all
      have row: "?b ! i = (pre @ [?v]) @ replicate k' (Some '' '')"
        using "2.prems"(2) by simp
      have len: "length (concat (map cells_of ts')) \<le> k'"
        using "2.prems"(4) r k by simp
      have i: "i < length ?b" using "2.prems"(2) by simp
      from "2.IH"(1) [OF None True r(1) r(2) r(3) i row len]
      show ?thesis using None True r sc k
        by (simp add: parseInt10_digit_value char_at_def js_str_def)
    next
      case False
      with None "2.prems"(1) obtain ts' where
        r: "scan rest = Some ts'" "ts = BaseToken ch # ts'"
        by auto
      from "2.prems"(4) r obtain k' where k: "k = Suc k'" by (cases k) auto
      let ?v = "Some [ch]"
      let ?b = "b[i := pre @ ?v # replicate k' (Some '' '')]"
      have sc: "set_cell b i (length pre) ?v = Inr ?b"
        using "2.prems"(2,3) k by (intro set_cell_in_row) simp_all
      have row: "?b ! i = (pre @ [?v]) @ replicate k' (Some '' '')"
        using "2.prems"(2) by simp
      have len: "length (concat (map cells_of ts')) \<le> k'"
        using "2.prems"(4) r k by simp
      have i: "i < length ?b" using "2.prems"(2) by simp
      from "2.IH"(2) [OF None False r(1) i row len]
      show ?thesis using None False r sc k
        by (simp add: parseInt10_digit_value)
    qed
  qed
qed

lemma sequence_length: "sequence xs = Some ys \<Longrightarrow> length ys = length xs"
  by (induction xs arbitrary: ys) (auto split: option.splits)

lemma rank_loop_decode_rank:
  assumes "decode_rank r = Some cells" "length cells = 9" "i < length b"
    and "b ! i = replicate 9 (Some '' '')"
  shows "rank_loop i r 0 b = Inr (b[i := cells])"
proof -
  from assms(1) obtain ts where ts: "scan r = Some ts" "cells = concat (map cells_of ts)"
    by (auto simp add: decode_rank_def)
  have "rank_loop i r (length ([] :: cell list)) b =
          Inr (b[i := [] @ concat (map cells_of ts)
                   @ replicate (9 - length (concat (map cells_of ts))) (Some '' '')])"
    using ts assms(2,3,4) by (intro rank_loop_scan) simp_all
  with ts assms(2) show ?thesis by simp
qed

lemma ranks_loop_decode:
  assumes "sequence (map decode_rank rs) = Some rows"
    and "\<forall>cells \<in> set rows. length cells = 9"
    and "i + length rs \<le> length b"
    and "\<forall>j. i \<le> j \<and> j < i + length rs \<longrightarrow> b ! j = replicate 9 (Some '' '')"
  shows "ranks_loop i rs b = Inr (take i b @ rows @ drop (i + length rs) b)"
  using assms
proof (induction rs arbitrary: i b rows)
  case Nil
  then show ?case by simp
next
  case (Cons r rs)
  from Cons.prems(1) obtain cells rows' where
    c: "decode_rank r = Some cells" "sequence (map decode_rank rs) = Some rows'"
       "rows = cells # rows'"
    by (auto split: option.splits)
  from Cons.prems(3) have i: "i < length b" by simp
  have step: "rank_loop i r 0 b = Inr (b[i := cells])"
    using c Cons.prems(2,4) i by (intro rank_loop_decode_rank) simp_all
  have "ranks_loop (i + 1) rs (b[i := cells]) =
          Inr (take (i + 1) (b[i := cells]) @ rows' @ drop (i + 1 + length rs) (b[i := cells]))"
    using c Cons.prems(2,3,4) by (intro Cons.IH) simp_all
  moreover have "take (i + 1) (b[i := cells]) = take i b @ [cells]"
    using i by (simp add: take_Suc_conv_app_nth)
  ultimately show ?case using step c by simp
qed

lemma createBoardFromSfen_decode:
  assumes "decode s = Some b" "length b = 9" "\<forall>cells \<in> set b. length cells = 9"
  shows "createBoardFromSfen s = Inr b"
proof -
  let ?rs = "split (CHR ''/'') (first_field s)"
  from assms(1) have seq: "sequence (map decode_rank ?rs) = Some b"
    by (simp add: decode_def)
  from sequence_length [OF seq] assms(2) have len: "length ?rs = 9" by simp
  have "ranks_loop 0 ?rs (replicate 9 (replicate 9 (Some '' '')))
          = Inr (take 0 (replicate 9 (replicate 9 (Some '' ''))) @ b
                 @ drop (0 + length ?rs) (replicate 9 (replicate 9 (Some '' ''))))"
    using seq assms(3) len by (intro ranks_loop_decode) simp_all
  with len show ?thesis by (simp add: createBoardFromSfen_ranks)
qed

lemma first_field_append:
  "CHR '' '' \<notin> set layout \<Longrightarrow> first_field (layout @ CHR '' '' # rest) = layout"
  unfolding first_field_def by (induction layout) auto

lemma first_field_no_space: "CHR '' '' \<notin> set (first_field s)"
  unfolding first_field_def by (auto dest: set_takeWhileD)

text \<open>
  C8: on a well-formed serialized string \<open>createBoardFromSfen\<close> returns the grid that the
  scanner and the grid builder give for the first space-delimited field: in each rank,
  from left to right, a decimal digit \<open>N\<close> gives \<open>N\<close> consecutive empty cells, a promotion
  marker followed by a base symbol gives one cell holding the two characters, and any
  other character gives one cell holding that character. Whatever follows the first space
  is ignored.
\<close>

theorem createBoardFromSfen_refines_decode:
  assumes "well_formed_sfen s"
  shows "\<exists>b. decode s = Some b \<and> createBoardFromSfen s = Inr b
           \<and> (\<forall>rest. createBoardFromSfen (first_field s @ CHR '' '' # rest) = Inr b)"
proof -
  from assms obtain b where
    b: "decode s = Some b" "length b = 9" "\<forall>cells \<in> set b. length cells = 9"
    by (auto simp add: well_formed_sfen_def list_all_iff split: option.splits)
  have "createBoardFromSfen (first_field s @ CHR '' '' # rest) = Inr b" for rest
  proof -
    have "decode (first_field s @ CHR '' '' # rest) = Some b"
      using b(1) by (simp add: decode_def first_field_append first_field_no_space)
    with b(2,3) show ?thesis by (intro createBoardFromSfen_decode)
  qed
  with b createBoardFromSfen_decode [OF b] show ?thesis by blast
qed

theorem createBoardFromSfen_refines_decode_witness:
  "well_formed_sfen promoted_sfen
   \<and> decode promoted_sfen = Some promoted_board
   \<and> createBoardFromSfen promoted_sfen = Inr promoted_board
   \<and> createBoardFromSfen (first_field promoted_sfen @ '' w - 22'') = Inr promoted_board"
proof -
  have w: "well_formed_sfen promoted_sfen" by code_simp
  have d: "decode promoted_sfen = Some promoted_board" by code_simp
  from createBoardFromSfen_refines_decode [OF w] d show ?thesis using w by auto
qed

section \<open>The encoder\<close>

lemma digit_value_None_iff: "digit_value ch = None \<longleftrightarrow> ch \<notin> set ''0123456789''"
  by (simp add: digit_value_def upt10)

lemma base_symbol_simps:
  assumes "base_symbol ch"
  shows "digit_value ch = None" "ch \<noteq> CHR ''+''" "ch \<noteq> CHR ''/''" "ch \<noteq> CHR '' ''"
  using assms by (auto simp add: base_symbol_def digit_value_None_iff)

lemma decode_rank_Nil: "decode_rank [] = Some []"
  by (simp add: decode_rank_def)

lemma decode_rank_digit:
  "digit_value ch = Some n \<Longrightarrow>
     decode_rank (ch # rest) = map_option (\<lambda>cells. replicate n (Some '' '') @ cells) (decode_rank rest)"
  by (simp add: decode_rank_def option.map_comp comp_def)

lemma decode_rank_base:
  "base_symbol ch \<Longrightarrow>
     decode_rank (ch # rest) = map_option (Cons (Some [ch])) (decode_rank rest)"
  by (simp add: decode_rank_def base_symbol_simps option.map_comp comp_def)

lemma decode_rank_promoted:
  "base_symbol ch \<Longrightarrow>
     decode_rank (CHR ''+'' # ch # rest)
       = map_option (Cons (Some [CHR ''+'', ch])) (decode_rank rest)"
proof -
  have "digit_value (CHR ''+'') = None" by (simp add: digit_value_None_iff)
  then show "base_symbol ch \<Longrightarrow> ?thesis"
    by (simp add: decode_rank_def option.map_comp comp_def)
qed

lemma show_nat_digit: "n < 10 \<Longrightarrow> show_nat n = [char_of (48 + n)]"
  by (simp add: show_nat.simps)

lemma digit_value_char_of: "n < 10 \<Longrightarrow> digit_value (char_of (48 + n)) = Some n"
  unfolding parseInt10_digit_value [symmetric] by (simp add: parseInt10_def)

lemma cells_loop_acc: "cells_loop cs rank e = rank @ cells_loop cs [] e"
proof (induction cs arbitrary: rank e)
  case Nil
  show ?case by simp
next
  case (Cons c cs)
  show ?case
  proof (cases "c = Some '' ''")
    case True
    with Cons.IH [of rank "e + 1"] show ?thesis by simp
  next
    case False
    with Cons.IH [of "(if e > 0 then rank @ show_nat e else rank) @ js_str c" 0]
      Cons.IH [of "(if e > 0 then show_nat e else []) @ js_str c" 0]
    show ?thesis by (cases "e > 0") simp_all
  qed
qed

lemma well_formed_cell_cases:
  assumes "well_formed_cell c"
  obtains "c = Some '' ''"
  | ch where "c = Some [ch]" "base_symbol ch"
  | ch where "c = Some [CHR ''+'', ch]" "base_symbol ch"
  using assms
  by (auto simp add: well_formed_cell_def piece_token_def split: option.splits list.splits)

lemma flush_run:
  assumes "e \<le> 9"
  shows "decode_rank ((if e > 0 then show_nat e else []) @ rest)
           = map_option (\<lambda>cells. replicate e (Some '' '') @ cells) (decode_rank rest)"
proof (cases "e > 0")
  case True
  with assms show ?thesis
    by (simp add: show_nat_digit decode_rank_digit digit_value_char_of)
next
  case False
  then show ?thesis by (simp add: option.map_ident)
qed

lemma decode_rank_cells_loop:
  assumes "list_all well_formed_cell cs" "e + length cs \<le> 9"
  shows "decode_rank (cells_loop cs [] e) = Some (replicate e (Some '' '') @ cs)"
  using assms
proof (induction cs arbitrary: e)
  case Nil
  then have "e \<le> 9" by simp
  from flush_run [OF this, of "[]"] show ?case
    by (cases "e > 0") (simp_all add: decode_rank_Nil)
next
  case (Cons c cs)
  from Cons.prems have wf: "well_formed_cell c" and e: "e \<le> 9" by simp_all
  define run where "run = (if e > 0 then show_nat e else [])"
  have fr: "decode_rank (run @ rest)
              = map_option (\<lambda>cells. replicate e (Some '' '') @ cells) (decode_rank rest)" for rest
    unfolding run_def using e by (rule flush_run)
  from wf show ?case
  proof (cases rule: well_formed_cell_cases)
    case 1
    with Cons.IH [of "e + 1"] Cons.prems show ?thesis
      by (simp add: replicate_app_Cons_same)
  next
    case (2 ch)
    then have ne: "c \<noteq> Some '' ''" by (auto dest: base_symbol_simps)
    have "cells_loop (c # cs) [] e = cells_loop cs (run @ [ch]) 0"
      using ne 2 by (simp add: run_def js_str_def)
    also have "\<dots> = run @ ch # cells_loop cs [] 0"
      using cells_loop_acc [of cs "run @ [ch]" 0] by simp
    finally show ?thesis
      using Cons.IH [of 0] Cons.prems 2 by (simp add: fr decode_rank_base)
  next
    case (3 ch)
    then have ne: "c \<noteq> Some '' ''" by auto
    have "cells_loop (c # cs) [] e = cells_loop cs (run @ [CHR ''+'', ch]) 0"
      using ne 3 by (simp add: run_def js_str_def)
    also have "\<dots> = run @ CHR ''+'' # ch # cells_loop cs [] 0"
      using cells_loop_acc [of cs "run @ [CHR ''+'', ch]" 0] by simp
    finally show ?thesis
      using Cons.IH [of 0] Cons.prems 3 by (simp add: fr decode_rank_promoted)
  qed
qed

lemma digit_not_separator:
  assumes "n < (10::nat)"
  shows "char_of (48 + n) \<noteq> CHR ''/''" "char_of (48 + n) \<noteq> CHR '' ''"
proof -
  have "digit_value (CHR ''/'') = None" "digit_value (CHR '' '') = None"
    by (simp_all add: digit_value_None_iff)
  with digit_value_char_of [OF assms] show "char_of (48 + n) \<noteq> CHR ''/''"
    "char_of (48 + n) \<noteq> CHR '' ''" by auto
qed

lemma cells_loop_no_separator:
  assumes "list_all well_formed_cell cs" "e + length cs \<le> 9"
  shows "CHR ''/'' \<notin> set (cells_loop cs [] e) \<and> CHR '' '' \<notin> set (cells_loop cs [] e)"
  using assms
proof (induction cs arbitrary: e)
  case Nil
  then show ?case
    by (simp add: show_nat_digit digit_not_separator digit_not_separator [symmetric])
next
  case (Cons c cs)
  from Cons.prems have wf: "well_formed_cell c" and e: "e \<le> 9" by simp_all
  define run where "run = (if e > 0 then show_nat e else [])"
  have flush: "CHR ''/'' \<notin> set run \<and> CHR '' '' \<notin> set run"
    using e by (simp add: run_def show_nat_digit digit_not_separator
        digit_not_separator [symmetric])
  from wf show ?case
  proof (cases rule: well_formed_cell_cases)
    case 1
    with Cons.IH [of "e + 1"] Cons.prems show ?thesis by simp
  next
    case (2 ch)
    then have ne: "c \<noteq> Some '' ''" by (auto dest: base_symbol_simps)
    have "cells_loop (c # cs) [] e = cells_loop cs (run @ [ch]) 0"
      using ne 2 by (simp add: run_def js_str_def)
    also have "\<dots> = run @ ch # cells_loop cs [] 0"
      using cells_loop_acc [of cs "run @ [ch]" 0] by simp
    finally show ?thesis
      using Cons.IH [of 0] Cons.prems 2 flush by (auto dest: base_symbol_simps)
  next
    case (3 ch)
    then have ne: "c \<noteq> Some '' ''" by auto
    have "cells_loop (c # cs) [] e = cells_loop cs (run @ [CHR ''+'', ch]) 0"
      using ne 3 by (simp add: run_def js_str_def)
    also have "\<dots> = run @ CHR ''+'' # ch # cells_loop cs [] 0"
      using cells_loop_acc [of cs "run @ [CHR ''+'', ch]" 0] by simp
    finally show ?thesis
      using Cons.IH [of 0] Cons.prems 3 flush by (auto dest: base_symbol_simps)
  qed
qed

lemma rows_loop_join:
  "i + length rows = n \<Longrightarrow>
     rows_loop n i rows acc = acc @ join_ranks (map (\<lambda>cells. cells_loop cells [] 0) rows)"
proof (induction rows arbitrary: i acc)
  case Nil
  show ?case by simp
next
  case (Cons r rows)
  show ?case
  proof (cases rows)
    case Nil
    with Cons.prems show ?thesis by (simp add: Let_def)
  next
    case (Cons r' rows')
    with Cons.prems have "i < n - 1" by simp
    then have "rows_loop n i (r # rows) acc
        = rows_loop n (i + 1) rows (acc @ cells_loop r [] 0 @ ''/'')"
      by (simp add: Let_def)
    also have "\<dots> = (acc @ cells_loop r [] 0 @ ''/'')
        @ join_ranks (map (\<lambda>cells. cells_loop cells [] 0) rows)"
      using Cons.prems by (intro Cons.IH) simp
    finally show ?thesis by (simp add: Cons)
  qed
qed

lemma split_no_separator: "sep \<notin> set r \<Longrightarrow> split sep r = [r]"
  by (induction r) auto

lemma split_append_separator:
  "sep \<notin> set r \<Longrightarrow> split sep (r @ sep # rest) = r # split sep rest"
  by (induction r) auto

lemma split_join_ranks:
  "rs \<noteq> [] \<Longrightarrow> \<forall>r \<in> set rs. CHR ''/'' \<notin> set r \<Longrightarrow> split (CHR ''/'') (join_ranks rs) = rs"
  by (induction rs rule: join_ranks.induct)
     (simp_all add: split_no_separator split_append_separator)

lemma join_ranks_no_space:
  "\<forall>r \<in> set rs. CHR '' '' \<notin> set r \<Longrightarrow> CHR '' '' \<notin> set (join_ranks rs)"
  by (induction rs rule: join_ranks.induct) simp_all

lemma sequence_map_Some:
  "\<forall>x \<in> set xs. f x = Some (g x) \<Longrightarrow> sequence (map f xs) = Some (map g xs)"
  by (induction xs) simp_all

lemma first_field_id: "CHR '' '' \<notin> set s \<Longrightarrow> first_field s = s"
  by (auto simp add: first_field_def takeWhile_eq_all_conv)

lemma decode_boardToSfen:
  assumes "well_formed_board b"
  shows "decode (boardToSfen b) = Some b"
proof -
  let ?enc = "\<lambda>cells. cells_loop cells [] 0"
  from assms have len: "length b = 9"
    and rows: "\<forall>cells \<in> set b. length cells = 9 \<and> list_all well_formed_cell cells"
    by (simp_all add: well_formed_board_def list_all_iff)
  have sfen: "boardToSfen b = join_ranks (map ?enc b)"
    using rows_loop_join [of 0 b "length b" "[]"] by (simp add: boardToSfen_def)
  have nosep: "\<forall>r \<in> set (map ?enc b). CHR ''/'' \<notin> set r \<and> CHR '' '' \<notin> set r"
    using rows cells_loop_no_separator [of _ 0] by auto
  have ne: "map ?enc b \<noteq> []" using len by auto
  have "first_field (boardToSfen b) = boardToSfen b"
    using nosep by (intro first_field_id) (simp add: sfen join_ranks_no_space)
  moreover have "split (CHR ''/'') (boardToSfen b) = map ?enc b"
    unfolding sfen using ne nosep by (intro split_join_ranks) simp_all
  moreover have "sequence (map decode_rank (map ?enc b)) = Some (map (\<lambda>cells. cells) b)"
    unfolding map_map comp_def
    using rows decode_rank_cells_loop [of _ 0] by (intro sequence_map_Some) simp
  ultimately show ?thesis by (simp add: decode_def)
qed

text \<open>
  C4: for every well-formed board \<open>b\<close> of nine rows of nine cells, each cell empty, a base
  symbol, or the promotion marker and a base symbol, decoding the encoding of \<open>b\<close> gives
  \<open>b\<close>.
\<close>

theorem decode_encode_roundtrip:
  assumes "well_formed_board b"
  shows "createBoardFromSfen (boardToSfen b) = Inr b"
  using assms decode_boardToSfen [OF assms]
  by (intro createBoardFromSfen_decode) (simp_all add: well_formed_board_def list_all_iff)

theorem decode_encode_roundtrip_witness:
  "well_formed_board promoted_board
   \<and> boardToSfen promoted_board
       = ''lnsgkgsnl/1r5b1/pppp+Ppppp/9/9/9/PPPP1PPPP/1B5R1/LNSGKGSNL''
   \<and> createBoardFromSfen (boardToSfen promoted_board) = Inr promoted_board"
proof -
  have w: "well_formed_board promoted_board" by code_simp
  have e: "boardToSfen promoted_board
       = ''lnsgkgsnl/1r5b1/pppp+Ppppp/9/9/9/PPPP1PPPP/1B5R1/LNSGKGSNL''" by code_simp
  from decode_encode_roundtrip [OF w] w e show ?thesis by simp
qed

text \<open>
  A base symbol cannot be a digit: a cell holding \<open>'5'\<close> is encoded as the character
  \<open>5\<close>, which decodes to five empty cells.
\<close>

lemma roundtrip_needs_base_symbols:
  "createBoardFromSfen (boardToSfen (replicate 9 (Some ''5'' # replicate 8 (Some '' ''))))
     = Inr (replicate 9 (replicate 9 (Some '' '')))"
  by code_simp

section \<open>The getters\<close>

lemma smod_2_even: "(n smod 2 = 0) = even (n::int)"
  by (auto simp add: signed_modulo_int_def sgn_if)

lemma game_state_snapshot:
  "game_state (controller_of (snapshot s n st))
     = Some \<lparr>sfen = s, numMoves = n, s_white = Some ''alice'', s_black = Some ''bob'',
             s_winner = None, s_status = st\<rparr>"
  by (simp add: game_state_def controller_of_def snapshot_def)

lemma game_state_no_game: "game_state (controller_of no_game) = None"
  by (simp add: game_state_def controller_of_def no_game_def)

lemma white_snapshot: "white (controller_of (snapshot s n st)) = Some alice"
  by (simp add: white_def game_state_snapshot) (simp add: controller_of_def alice_def)

lemma black_snapshot: "black (controller_of (snapshot s n st)) = Some bob"
  by (simp add: black_def game_state_snapshot) (simp add: controller_of_def alice_def bob_def)

text \<open>
  C2: in a game state whose phase is \<open>IN_PROGRESS\<close> and whose two role-holders both
  resolve to occupants, \<open>whoseTurn\<close> is the second role-holder (black) when the move
  counter is even and the first role-holder (white) when it is odd; and \<open>whoseTurn\<close> is
  \<open>undefined\<close> whenever a role-holder does not resolve or the phase is not \<open>IN_PROGRESS\<close>
  (which includes the absence of a game), whatever the move counter is.
\<close>

theorem whoseTurn_by_parity:
  "(\<forall>s w b. game_state c = Some s \<and> s_status s = IN_PROGRESS
         \<and> white c = Some w \<and> black c = Some b
      \<longrightarrow> whoseTurn c = Some (if even (numMoves s) then b else w))
   \<and> ((white c = None \<or> black c = None
        \<or> (\<forall>s. game_state c = Some s \<longrightarrow> s_status s \<noteq> IN_PROGRESS))
      \<longrightarrow> whoseTurn c = None)"
  by (cases "game_state c") (auto simp add: whoseTurn_def moveCount_def smod_2_even)

theorem whoseTurn_by_parity_witness:
  "map (\<lambda>n. whoseTurn (controller_of (snapshot opening_sfen n IN_PROGRESS))) [0, 1, 2, 3]
     = [Some bob, Some alice, Some bob, Some alice]
   \<and> whoseTurn (controller_of (snapshot opening_sfen 2 OVER)) = None
   \<and> whoseTurn (controller_of no_game) = None"
  using whoseTurn_by_parity [of "controller_of (snapshot opening_sfen 0 IN_PROGRESS)"]
    whoseTurn_by_parity [of "controller_of (snapshot opening_sfen 1 IN_PROGRESS)"]
    whoseTurn_by_parity [of "controller_of (snapshot opening_sfen 2 IN_PROGRESS)"]
    whoseTurn_by_parity [of "controller_of (snapshot opening_sfen 3 IN_PROGRESS)"]
    whoseTurn_by_parity [of "controller_of (snapshot opening_sfen 2 OVER)"]
    whoseTurn_by_parity [of "controller_of no_game"]
  by (simp add: game_state_snapshot white_snapshot black_snapshot game_state_no_game)

text \<open>
  C9, as amended: when the identifier of the local participant equals neither the resolved
  white role-holder nor the resolved black role-holder, reading \<open>gamePiece\<close> raises the
  player-not-in-game error; when it equals the resolved white role-holder the result is
  \<open>'white'\<close>; when it equals the resolved black role-holder and not the resolved white
  role-holder the result is \<open>'black'\<close>.
\<close>

theorem gamePiece_cases:
  "(map_option player_id (white c) \<noteq> Some (player_id (ourPlayer c))
      \<and> map_option player_id (black c) \<noteq> Some (player_id (ourPlayer c))
     \<longrightarrow> gamePiece c = Inl PLAYER_NOT_IN_GAME_ERROR)
   \<and> (map_option player_id (white c) = Some (player_id (ourPlayer c))
     \<longrightarrow> gamePiece c = Inr ''white'')
   \<and> (map_option player_id (black c) = Some (player_id (ourPlayer c))
      \<and> map_option player_id (white c) \<noteq> Some (player_id (ourPlayer c))
     \<longrightarrow> gamePiece c = Inr ''black'')"
  by (simp add: gamePiece_def)

theorem gamePiece_cases_witness:
  "gamePiece (controller_of no_game) = Inl PLAYER_NOT_IN_GAME_ERROR
   \<and> gamePiece (controller_of solo_game) = Inr ''white''
   \<and> gamePiece (controller_of (snapshot opening_sfen 0 IN_PROGRESS)) = Inr ''black''"
proof -
  have n: "white (controller_of no_game) = None" "black (controller_of no_game) = None"
    by (simp_all add: white_def black_def game_state_no_game)
  have w: "map_option player_id (white (controller_of solo_game))
             = Some (player_id (ourPlayer (controller_of solo_game)))"
    by code_simp
  have o: "player_id (ourPlayer (controller_of m)) = ''bob''" for m
    by (simp add: controller_of_def bob_def)
  show ?thesis
    using gamePiece_cases [of "controller_of no_game"]
      gamePiece_cases [of "controller_of solo_game"]
      gamePiece_cases [of "controller_of (snapshot opening_sfen 0 IN_PROGRESS)"]
    by (simp add: n w o white_snapshot black_snapshot alice_def bob_def)
qed

text \<open>
  C9, as stated, fails where the local participant holds both roles: the identifier
  equals the resolved black role-holder, and the result is \<open>'white'\<close>.
\<close>

theorem gamePiece_both_roles:
  "map_option player_id (black (controller_of solo_game))
     = Some (player_id (ourPlayer (controller_of solo_game)))
   \<and> gamePiece (controller_of solo_game) = Inr ''white''
   \<and> gamePiece (controller_of solo_game) \<noteq> Inr ''black''"
  by code_simp

section \<open>The commands\<close>

lemma instanceID_snapshot:
  "the_instanceID (base (controller_of (snapshot s n st))) = Some ''game-1''"
  "interactable_id (base (controller_of m)) = ''shogi-area''"
  "the_instanceID (base (controller_of no_game)) = None"
  by (simp_all add: controller_of_def snapshot_def no_game_def)

text \<open>
  C5: when there is no instance identifier (it is \<open>undefined\<close> or the empty string) or the
  phase is not \<open>WAITING_TO_START\<close> (which includes the absence of a game), \<open>startGame\<close>
  fails with the no-game-startable error and the transport is not invoked; otherwise the
  transport is invoked exactly once, with a \<open>StartGame\<close> command tagged with the instance
  identifier, and the call ends as the transport reports.
\<close>

theorem startGame_guard:
  "((the_instanceID (base c) = None \<or> the_instanceID (base c) = Some []
      \<or> (\<forall>s. game_state c = Some s \<longrightarrow> s_status s \<noteq> WAITING_TO_START))
     \<longrightarrow> startGame respond c = (Inl NO_GAME_STARTABLE, []))
   \<and> (\<forall>instanceID s. the_instanceID (base c) = Some instanceID \<and> instanceID \<noteq> []
          \<and> game_state c = Some s \<and> s_status s = WAITING_TO_START
     \<longrightarrow> startGame respond c =
           (case respond (interactable_id (base c)) (StartGame instanceID) of
              Some e \<Rightarrow> Inl e | None \<Rightarrow> Inr (),
            [(interactable_id (base c), StartGame instanceID)]))"
  by (cases "game_state c") (auto simp add: startGame_def split: option.splits)

theorem startGame_guard_witness:
  "startGame (\<lambda>i cmd. None) (controller_of (snapshot opening_sfen 0 WAITING_TO_START))
     = (Inr (), [(''shogi-area'', StartGame ''game-1'')])
   \<and> startGame (\<lambda>i cmd. None) (controller_of (snapshot opening_sfen 0 IN_PROGRESS))
     = (Inl NO_GAME_STARTABLE, [])
   \<and> startGame (\<lambda>i cmd. None) (controller_of no_game) = (Inl NO_GAME_STARTABLE, [])"
  using startGame_guard [of "controller_of (snapshot opening_sfen 0 WAITING_TO_START)" "\<lambda>i cmd. None"]
    startGame_guard [of "controller_of (snapshot opening_sfen 0 IN_PROGRESS)" "\<lambda>i cmd. None"]
    startGame_guard [of "controller_of no_game" "\<lambda>i cmd. None"]
  by (simp add: game_state_snapshot game_state_no_game instanceID_snapshot)

text \<open>
  C6: when there is no instance identifier or the phase is not \<open>IN_PROGRESS\<close>, \<open>makeMove\<close>
  fails with the no-game-in-progress error and the transport is not invoked; otherwise,
  whatever the four coordinates are, the transport is invoked exactly once with a
  \<open>GameMove\<close> command tagged with the instance identifier, whose move pairs the origin
  \<open>{row: fRow, col: fCol}\<close> with the destination \<open>{row: tRow, col: tCol}\<close>.
\<close>

theorem makeMove_guard:
  "((the_instanceID (base c) = None \<or> the_instanceID (base c) = Some []
      \<or> (\<forall>s. game_state c = Some s \<longrightarrow> s_status s \<noteq> IN_PROGRESS))
     \<longrightarrow> makeMove respond c fRow fCol tRow tCol = (Inl NO_GAME_IN_PROGRESS_ERROR, []))
   \<and> (\<forall>instanceID s. the_instanceID (base c) = Some instanceID \<and> instanceID \<noteq> []
          \<and> game_state c = Some s \<and> s_status s = IN_PROGRESS
     \<longrightarrow> makeMove respond c fRow fCol tRow tCol =
           (let cmd = GameMove instanceID
                        \<lparr>move_from = \<lparr>row = fRow, col = fCol\<rparr>,
                         move_to = \<lparr>row = tRow, col = tCol\<rparr>\<rparr>
            in (case respond (interactable_id (base c)) cmd of
                  Some e \<Rightarrow> Inl e | None \<Rightarrow> Inr (),
                [(interactable_id (base c), cmd)])))"
  by (cases "game_state c") (auto simp add: makeMove_def Let_def split: option.splits)

theorem makeMove_guard_witness:
  "makeMove (\<lambda>i cmd. None) (controller_of (snapshot opening_sfen 0 IN_PROGRESS)) 8 8 0 0
     = (Inr (), [(''shogi-area'',
           GameMove ''game-1'' \<lparr>move_from = \<lparr>row = 8, col = 8\<rparr>,
                                 move_to = \<lparr>row = 0, col = 0\<rparr>\<rparr>)])
   \<and> makeMove (\<lambda>i cmd. None) (controller_of (snapshot opening_sfen 0 WAITING_TO_START)) 0 0 1 1
     = (Inl NO_GAME_IN_PROGRESS_ERROR, [])
   \<and> makeMove (\<lambda>i cmd. None) (controller_of no_game) 0 0 1 1
     = (Inl NO_GAME_IN_PROGRESS_ERROR, [])"
  using makeMove_guard [of "controller_of (snapshot opening_sfen 0 IN_PROGRESS)" "\<lambda>i cmd. None" 8 8 0 0]
    makeMove_guard [of "controller_of (snapshot opening_sfen 0 WAITING_TO_START)" "\<lambda>i cmd. None" 0 0 1 1]
    makeMove_guard [of "controller_of no_game" "\<lambda>i cmd. None" 0 0 1 1]
  by (simp add: game_state_snapshot game_state_no_game instanceID_snapshot)

section \<open>The update\<close>

lemma updateFrom_event_names:
  "fst ` set (emitted (updateFrom super_updateFrom newModel c))
     \<subseteq> {''boxardChanged'', ''turnChanged''}"
  by (auto simp add: updateFrom_def Let_def split: option.splits sum.splits if_splits)

text \<open>
  What the update does with a board that decodes: a board that differs from the cached
  one replaces it and is sent with the one event \<open>boxardChanged\<close>; a board equal to the
  cached one leaves the cache as it is, and no event carries a board.
\<close>

lemma updateFrom_board_step:
  assumes "game newModel = Some g" "createBoardFromSfen (sfen (state g)) = Inr newBoard"
  shows "(newBoard \<noteq> the_board c \<longrightarrow>
            the_board (ctrl (updateFrom super_updateFrom newModel c)) = newBoard
          \<and> filter (\<lambda>ev. fst ev \<noteq> ''turnChanged'')
               (emitted (updateFrom super_updateFrom newModel c))
              = [(''boxardChanged'', BoardPayload newBoard)])
       \<and> (newBoard = the_board c \<longrightarrow>
            the_board (ctrl (updateFrom super_updateFrom newModel c)) = the_board c
          \<and> (\<forall>name b. (name, BoardPayload b)
                \<notin> set (emitted (updateFrom super_updateFrom newModel c))))"
  using assms by (simp add: updateFrom_def Let_def)

text \<open>
  C1, at a snapshot whose board differs from the cached one: the decoded board replaces
  the cache, and the event emitted for it carries the new board under the name
  \<open>boxardChanged\<close>; no event named \<open>boardChanged\<close> is emitted.
\<close>

theorem updateFrom_emits_boxardChanged:
  "createBoardFromSfen empty_sfen = Inr (replicate 9 (replicate 9 (Some '' '')))
   \<and> replicate 9 (replicate 9 (Some '' ''))
       \<noteq> the_board (controller_of (snapshot opening_sfen 0 WAITING_TO_START))
   \<and> emitted (updateFrom (base_updateFrom [alice, bob]) (snapshot empty_sfen 0 IN_PROGRESS)
        (controller_of (snapshot opening_sfen 0 WAITING_TO_START)))
     = [(''boxardChanged'', BoardPayload (replicate 9 (replicate 9 (Some '' '')))),
        (''turnChanged'', BoolPayload True)]"
  by code_simp

text \<open>
  C7: when the snapshot carries no game, the update does not raise, the cached board
  after it is the cached board before it, and no emitted event carries a board, under
  any name.
\<close>

theorem updateFrom_without_game:
  assumes "game newModel = None"
  shows "thrown (updateFrom super_updateFrom newModel c) = None
       \<and> the_board (ctrl (updateFrom super_updateFrom newModel c)) = the_board c
       \<and> (\<forall>name b. (name, BoardPayload b) \<notin> set (emitted (updateFrom super_updateFrom newModel c)))"
  using assms by (simp add: updateFrom_def Let_def)

theorem updateFrom_without_game_witness:
  "game no_game = None
   \<and> the_board (ctrl (updateFrom (base_updateFrom [alice, bob]) no_game
        (controller_of (snapshot opening_sfen 0 IN_PROGRESS)))) = opening_board
   \<and> emitted (updateFrom (base_updateFrom [alice, bob]) no_game
        (controller_of (snapshot opening_sfen 0 IN_PROGRESS))) = [(''turnChanged'', BoolPayload False)]"
proof -
  have g: "game no_game = None" by (simp add: no_game_def)
  have e: "emitted (updateFrom (base_updateFrom [alice, bob]) no_game
        (controller_of (snapshot opening_sfen 0 IN_PROGRESS))) = [(''turnChanged'', BoolPayload False)]"
    by code_simp
  from updateFrom_without_game [OF g, of "base_updateFrom [alice, bob]" "controller_of (snapshot opening_sfen 0 IN_PROGRESS)"]
  show ?thesis using g e by (simp add: controller_of_def)
qed

text \<open>
  C3, as amended: for every snapshot that carries no game or whose board string the
  decoder accepts without raising (as it does whenever the string has at most nine
  ranks, by \<open>createBoardFromSfen_total\<close>), the update emits \<open>turnChanged\<close> once, carrying
  the new value of \<open>isOurTurn\<close>, when that value differs from the one before the update,
  and does not emit it otherwise; whether an event for the board was emitted plays no
  part.
\<close>

theorem turnChanged_iff_changed:
  assumes "\<forall>g. game newModel = Some g \<longrightarrow> (\<exists>b. createBoardFromSfen (sfen (state g)) = Inr b)"
  shows "thrown (updateFrom super_updateFrom newModel c) = None
       \<and> filter (\<lambda>ev. fst ev = ''turnChanged'') (emitted (updateFrom super_updateFrom newModel c))
         = (if isOurTurn (ctrl (updateFrom super_updateFrom newModel c)) \<noteq> isOurTurn c
            then [(''turnChanged'', BoolPayload (isOurTurn (ctrl (updateFrom super_updateFrom newModel c))))]
            else [])"
proof (cases "game newModel")
  case None
  then show ?thesis by (simp add: updateFrom_def Let_def)
next
  case (Some g)
  with assms obtain b where "createBoardFromSfen (sfen (state g)) = Inr b" by blast
  with Some show ?thesis by (simp add: updateFrom_def Let_def)
qed

theorem turnChanged_iff_changed_witness:
  "emitted (updateFrom (base_updateFrom [alice, bob]) (snapshot opening_sfen 0 IN_PROGRESS)
      (controller_of (snapshot opening_sfen 0 WAITING_TO_START)))
     = [(''turnChanged'', BoolPayload True)]
   \<and> emitted (updateFrom (base_updateFrom [alice, bob]) (snapshot empty_sfen 3 IN_PROGRESS)
      (controller_of (snapshot opening_sfen 1 IN_PROGRESS)))
     = [(''boxardChanged'', BoardPayload (replicate 9 (replicate 9 (Some '' ''))))]"
proof -
  let ?sup = "base_updateFrom [alice, bob]"
  let ?r1 = "updateFrom ?sup (snapshot opening_sfen 0 IN_PROGRESS)
      (controller_of (snapshot opening_sfen 0 WAITING_TO_START))"
  let ?r2 = "updateFrom ?sup (snapshot empty_sfen 3 IN_PROGRESS)
      (controller_of (snapshot opening_sfen 1 IN_PROGRESS))"
  have d1: "\<forall>g. game (snapshot opening_sfen 0 IN_PROGRESS) = Some g
              \<longrightarrow> (\<exists>b. createBoardFromSfen (sfen (state g)) = Inr b)"
    by (auto simp add: snapshot_def opening_sfen_def intro!: createBoardFromSfen_total) code_simp
  have d2: "\<forall>g. game (snapshot empty_sfen 3 IN_PROGRESS) = Some g
              \<longrightarrow> (\<exists>b. createBoardFromSfen (sfen (state g)) = Inr b)"
    by (auto simp add: snapshot_def empty_sfen_def intro!: createBoardFromSfen_total) code_simp
  have e1: "emitted ?r1 = [(''turnChanged'', BoolPayload True)]" by code_simp
  have e2: "emitted ?r2 = [(''boxardChanged'', BoardPayload (replicate 9 (replicate 9 (Some '' ''))))]"
    by code_simp
  from turnChanged_iff_changed [OF d1, of ?sup "controller_of (snapshot opening_sfen 0 WAITING_TO_START)"]
    turnChanged_iff_changed [OF d2, of ?sup "controller_of (snapshot opening_sfen 1 IN_PROGRESS)"]
  show ?thesis using e1 e2 by simp
qed

text \<open>
  C3, as stated, fails at a snapshot whose board string has a piece in a tenth rank:
  the decoder raises a TypeError after the inherited fields were refreshed, so
  \<open>isOurTurn\<close> has changed from false to true and nothing is emitted.
\<close>

theorem turnChanged_lost_on_TypeError:
  "\<not> isOurTurn (controller_of (snapshot opening_sfen 0 WAITING_TO_START))
   \<and> isOurTurn (ctrl (updateFrom (base_updateFrom [alice, bob])
        (snapshot overlong_sfen 0 IN_PROGRESS)
        (controller_of (snapshot opening_sfen 0 WAITING_TO_START))))
   \<and> thrown (updateFrom (base_updateFrom [alice, bob])
        (snapshot overlong_sfen 0 IN_PROGRESS)
        (controller_of (snapshot opening_sfen 0 WAITING_TO_START))) = Some TypeError
   \<and> emitted (updateFrom (base_updateFrom [alice, bob])
        (snapshot overlong_sfen 0 IN_PROGRESS)
        (controller_of (snapshot opening_sfen 0 WAITING_TO_START))) = []"
  by code_simp

subsection \<open>The cells of the cached board\<close>

lemma set_cell_inv:
  assumes "set_cell b i f v = Inr b'" "f < 9" "cell_shape v" "rows_inv b"
  shows "rows_inv b'"
proof -
  from assms(1) have i: "i < length b" and b': "b' = b[i := array_set (b ! i) f v]"
    by (auto simp add: set_cell_def split: if_splits)
  from i assms(4) have r: "length (b ! i) = 9" "list_all cell_shape (b ! i)"
    by (simp_all add: rows_inv_def)
  with assms(2) have a: "array_set (b ! i) f v = (b ! i)[f := v]"
    by (simp add: array_set_def)
  have "list_all cell_shape ((b ! i)[f := v])"
    using r(2) assms(3) set_update_subset_insert [of "b ! i" f v]
    by (auto simp add: list_all_iff)
  with r(1) a have "length (array_set (b ! i) f v) = 9 \<and> list_all cell_shape (array_set (b ! i) f v)"
    by simp
  with assms(4) set_update_subset_insert [of b i "array_set (b ! i) f v"] show ?thesis
    unfolding b' rows_inv_def by blast
qed

lemma rank_loop_inv:
  "rank_fits r f \<Longrightarrow> rows_inv b \<Longrightarrow> rank_loop i r f b = Inr b' \<Longrightarrow> rows_inv b'"
proof (induction i r f b rule: rank_loop.induct)
  case (1 i f board)
  then show ?case by simp
next
  case (2 i ch rest f board)
  show ?case
  proof (cases "digit_value ch")
    case (Some n)
    with 2 show ?thesis by (simp add: parseInt10_digit_value)
  next
    case None
    with "2.prems"(1) have f: "f < 9" by simp
    show ?thesis
    proof (cases "ch = CHR ''+''")
      case True
      with None "2.prems"(1) obtain nxt rest' where
        rest: "rest = nxt # rest'" "rank_fits rest' (f + 1)"
        by (auto split: list.splits)
      let ?v = "Some (ch # js_str (char_at rest 0))"
      from "2.prems"(3) None True rest obtain b1 where
        sc: "set_cell board i f ?v = Inr b1" and l: "rank_loop i rest' (f + 1) b1 = Inr b'"
        by (auto simp add: parseInt10_digit_value split: sum.splits)
      have "cell_shape ?v" using True rest by (simp add: cell_shape_def char_at_def js_str_def)
      from set_cell_inv [OF sc f this "2.prems"(2)] have "rows_inv b1" .
      from "2.IH"(1) [OF _ True sc rest(1) rest(2) this l] None show ?thesis
        by (simp add: parseInt10_digit_value)
    next
      case False
      with None "2.prems"(1) have rest: "rank_fits rest (f + 1)" by simp
      let ?v = "Some [ch]"
      from "2.prems"(3) None False obtain b1 where
        sc: "set_cell board i f ?v = Inr b1" and l: "rank_loop i rest (f + 1) b1 = Inr b'"
        by (auto simp add: parseInt10_digit_value split: sum.splits)
      have "cell_shape ?v" by (simp add: cell_shape_def)
      from set_cell_inv [OF sc f this "2.prems"(2)] have "rows_inv b1" .
      from "2.IH"(2) [OF _ False sc rest this l] None show ?thesis
        by (simp add: parseInt10_digit_value)
    qed
  qed
qed

lemma ranks_loop_inv:
  "list_all (\<lambda>r. rank_fits r 0) rs \<Longrightarrow> rows_inv b \<Longrightarrow> ranks_loop i rs b = Inr b'
     \<Longrightarrow> rows_inv b'"
proof (induction rs arbitrary: i b)
  case Nil
  then show ?case by simp
next
  case (Cons r rs)
  from Cons.prems(3) obtain b1 where
    s: "rank_loop i r 0 b = Inr b1" "ranks_loop (i + 1) rs b1 = Inr b'"
    by (auto split: sum.splits)
  from rank_loop_inv [OF _ Cons.prems(2) s(1)] Cons.prems(1) have "rows_inv b1" by simp
  from Cons.IH [OF _ this s(2)] Cons.prems(1) show ?case by simp
qed

lemma createBoardFromSfen_inv:
  assumes "sfen_fits s" "createBoardFromSfen s = Inr b"
  shows "board_shape b"
proof -
  have "rows_inv (replicate 9 (replicate 9 (Some '' '')))"
    by (simp add: rows_inv_def cell_shape_def list_all_iff)
  from ranks_loop_inv [OF _ this] assms have "rows_inv b"
    by (simp add: sfen_fits_def createBoardFromSfen_ranks)
  then show ?thesis by (simp add: rows_inv_def board_shape_def list_all_iff)
qed

lemma initial_board_opening: "initial_board = Inr opening_board"
  by code_simp

lemma opening_board_shape: "board_shape opening_board"
  by code_simp

text \<open>
  C10, as amended: every cell of the board that the getter \<open>board\<close> returns (the field
  \<open>_board\<close>) is a string of one character (\<open>' '\<close> for an empty cell) or \<open>'+'\<close> and one
  character, and never \<open>undefined\<close>: in the initial cached board, and after every update
  whose snapshot carries no game or a board string that fits the board (every piece token
  within the nine columns of its rank, every promotion marker followed by a character of
  its rank), given that it held before the update.
\<close>

theorem board_cells_shape:
  "initial_board = Inr opening_board \<and> board_shape opening_board
   \<and> (board_shape (the_board c)
        \<and> (\<forall>g. game newModel = Some g \<longrightarrow> sfen_fits (sfen (state g)))
      \<longrightarrow> board_shape (the_board (ctrl (updateFrom super_updateFrom newModel c))))"
proof -
  have "board_shape (the_board (ctrl (updateFrom super_updateFrom newModel c)))"
    if c: "board_shape (the_board c)"
      and g: "\<forall>g. game newModel = Some g \<longrightarrow> sfen_fits (sfen (state g))"
  proof (cases "game newModel")
    case None
    with c show ?thesis by (simp add: updateFrom_def Let_def)
  next
    case (Some newGame)
    with g have fits: "sfen_fits (sfen (state newGame))" by simp
    show ?thesis
    proof (cases "createBoardFromSfen (sfen (state newGame))")
      case (Inl e)
      with Some c show ?thesis by (simp add: updateFrom_def Let_def)
    next
      case (Inr newBoard)
      from createBoardFromSfen_inv [OF fits Inr] c Some Inr show ?thesis
        by (simp add: updateFrom_def Let_def)
    qed
  qed
  with initial_board_opening opening_board_shape show ?thesis by blast
qed

theorem board_cells_shape_witness:
  "board_shape (the_board (controller_of (snapshot opening_sfen 0 IN_PROGRESS)))
   \<and> sfen_fits promoted_sfen
   \<and> the_board (ctrl (updateFrom (base_updateFrom [alice, bob])
        (snapshot promoted_sfen 1 IN_PROGRESS)
        (controller_of (snapshot opening_sfen 0 IN_PROGRESS)))) = promoted_board
   \<and> board_shape promoted_board"
proof -
  have c: "the_board (controller_of (snapshot opening_sfen 0 IN_PROGRESS)) = opening_board"
    by (simp add: controller_of_def)
  have f: "sfen_fits promoted_sfen" by code_simp
  have g: "\<forall>g. game (snapshot promoted_sfen 1 IN_PROGRESS) = Some g \<longrightarrow> sfen_fits (sfen (state g))"
    using f by (simp add: snapshot_def)
  have b: "the_board (ctrl (updateFrom (base_updateFrom [alice, bob])
        (snapshot promoted_sfen 1 IN_PROGRESS)
        (controller_of (snapshot opening_sfen 0 IN_PROGRESS)))) = promoted_board"
    by code_simp
  from board_cells_shape [of "controller_of (snapshot opening_sfen 0 IN_PROGRESS)"
      "snapshot promoted_sfen 1 IN_PROGRESS" "base_updateFrom [alice, bob]"]
  show ?thesis using c f g b by simp
qed

text \<open>
  C10, as stated, fails at a snapshot whose last rank is \<open>99+\<close>: the token is written
  to column 18 of a row of nine cells, the nine columns in between are holes, which read
  as \<open>undefined\<close>, and the cell itself holds the string \<open>+undefined\<close>.
\<close>

theorem board_cell_undefined:
  "thrown (updateFrom (base_updateFrom [alice, bob]) (snapshot ragged_sfen 0 IN_PROGRESS)
      (controller_of (snapshot opening_sfen 0 WAITING_TO_START))) = None
   \<and> the_board (ctrl (updateFrom (base_updateFrom [alice, bob])
        (snapshot ragged_sfen 0 IN_PROGRESS)
        (controller_of (snapshot opening_sfen 0 WAITING_TO_START)))) ! 8
     = replicate 9 (Some '' '') @ replicate 9 None @ [Some ''+undefined'']"
  by code_simp

end
